theory Spec2Isabelle
  imports Main "HOL-Library.Multiset"
begin

section \<open>Data model of fleetcomp.py and teamcomp.py\<close>

text \<open>
  \<^verbatim>\<open>class ShipType(StrEnum)\<close>: five members, each equal to (and hashing as) its string value.
  \<open>ShipType_of\<close> is the call \<^verbatim>\<open>ShipType(s)\<close>, which raises ValueError on any other string.
\<close>

datatype ShipType = SS | DD | CA | BB | CV

text \<open>
  The exceptions the modelled code raises. \<open>ConfigurationError n x\<close> is fleetcomp.py's, with
  the two numbers of its message: the team size required and the number of players that
  have ships.
\<close>

datatype error =
    ConfigurationError int int
  | ValueError
  | KeyError
  | TypeError

fun ShipType_value :: "ShipType \<Rightarrow> string" where
  "ShipType_value SS = ''SS''"
| "ShipType_value DD = ''DD''"
| "ShipType_value CA = ''CA''"
| "ShipType_value BB = ''BB''"
| "ShipType_value CV = ''CV''"

definition ShipType_of :: "string \<Rightarrow> error + ShipType" where
  "ShipType_of s =
     (if s = ''SS'' then Inr SS
      else if s = ''DD'' then Inr DD
      else if s = ''CA'' then Inr CA
      else if s = ''BB'' then Inr BB
      else if s = ''CV'' then Inr CV
      else Inl ValueError)"

text \<open>
  \<^verbatim>\<open>class Ship\<close> defines \<^verbatim>\<open>__init__\<close>, \<^verbatim>\<open>__hash__\<close> and \<^verbatim>\<open>__repr__\<close> and nothing else, so
  \<^verbatim>\<open>==\<close> on ships is the one inherited from \<^verbatim>\<open>object\<close>: identity. An object is therefore
  modelled with the identity \<open>oid\<close> it was allocated under, next to its three attributes.
  \<open>Ship_eq\<close> is \<^verbatim>\<open>a == b\<close>; \<open>Ship_hash\<close> is the tuple \<^verbatim>\<open>__hash__\<close> hashes (the class is the same
  for every ship).
\<close>

record Ship =
  oid :: nat
  ship_name :: string
  ship_type :: ShipType
  ship_player :: string

definition Ship_init :: "nat \<Rightarrow> string \<Rightarrow> ShipType \<Rightarrow> string \<Rightarrow> Ship" where
  "Ship_init fresh nm ty pl =
     \<lparr>oid = fresh, ship_name = nm, ship_type = ty, ship_player = pl\<rparr>"

definition Ship_eq :: "Ship \<Rightarrow> Ship \<Rightarrow> bool" where
  "Ship_eq a b = (oid a = oid b)"

definition Ship_hash :: "Ship \<Rightarrow> string \<times> ShipType \<times> string" where
  "Ship_hash s = (ship_name s, ship_type s, ship_player s)"

text \<open>
  A Python \<^verbatim>\<open>set[Ship]\<close> (and \<^verbatim>\<open>frozenset\<close>) is given by the list of its elements in iteration
  order; no two elements of it are \<open>Ship_eq\<close>. \<open>set_contains\<close> is \<^verbatim>\<open>ship in s\<close>, \<open>set_add\<close> is
  \<^verbatim>\<open>s | {ship}\<close> and \<^verbatim>\<open>s.add(ship)\<close>, \<open>length\<close> is \<^verbatim>\<open>len(s)\<close>.
\<close>

type_synonym composition = "Ship list"

definition set_contains :: "composition \<Rightarrow> Ship \<Rightarrow> bool" where
  "set_contains s ship = (\<exists>x \<in> set s. Ship_eq x ship)"

definition set_add :: "composition \<Rightarrow> Ship \<Rightarrow> composition" where
  "set_add s ship = (if set_contains s ship then s else s @ [ship])"

text \<open>
  \<^verbatim>\<open>class Player\<close>: a name and the frozenset of the ships built for it. \<^verbatim>\<open>__bool__\<close> (fleetcomp
  only) is the truth value of that set.
\<close>

record Player =
  player_name :: string
  player_ships :: composition

definition Player_bool :: "Player \<Rightarrow> bool" where
  "Player_bool p = (player_ships p \<noteq> [])"

text \<open>
  One entry of \<^verbatim>\<open>RestrictionSet.restrictions\<close>: the dictionary
  \<^verbatim>\<open>{"rtype": rt, rt: [...], "allowed": n}\<close> for \<open>rt\<close> one of \<^verbatim>\<open>"ships"\<close> and \<^verbatim>\<open>"types"\<close>;
  \<open>members\<close> is the list stored under the key \<open>rt\<close>. \<^verbatim>\<open>is_valid\<close> reads the key \<^verbatim>\<open>"ships"\<close>
  when \<open>rt\<close> is \<^verbatim>\<open>"ships"\<close> and the key \<^verbatim>\<open>"types"\<close> otherwise; a rule with any third value of
  \<open>rt\<close> has neither key, makes \<^verbatim>\<open>is_valid\<close> raise KeyError at the first ship that is not banned,
  and is no value of this type.
\<close>

datatype rtype = Rships | Rtypes

record rinfo =
  rtype :: rtype
  members :: "string list"
  allowed :: int

text \<open>
  \<^verbatim>\<open>class RestrictionSet\<close>. teamcomp.py's has four attributes, fleetcomp.py's has \<open>tier\<close> as
  a fifth; the methods the two files share are typed over both. \<open>restrictions\<close> is a dict,
  given by its items in iteration order (each key once).
\<close>

record tc_RestrictionSet =
  size_limit :: int
  banned_ships :: "string set"
  banned_types :: "string set"
  restrictions :: "(string \<times> rinfo) list"

record RestrictionSet = tc_RestrictionSet +
  tier :: int

record Team =
  players :: "Player list"

section \<open>The validator\<close>

definition is_banned :: "'a tc_RestrictionSet_scheme \<Rightarrow> Ship \<Rightarrow> bool" where
  "is_banned rs ship =
     (ship_name ship \<in> banned_ships rs \<or> ShipType_value (ship_type ship) \<in> banned_types rs)"

text \<open>
  \<^verbatim>\<open>collections.Counter\<close>, as its items in insertion order. \<open>counter_add c k v\<close> is
  \<^verbatim>\<open>c[k] += v\<close>: a missing key reads as 0 and is then stored.
\<close>

type_synonym counter = "(string \<times> int) list"

fun counter_add :: "counter \<Rightarrow> string \<Rightarrow> int \<Rightarrow> counter" where
  "counter_add [] k v = [(k, 0 + v)]"
| "counter_add ((k', c) # rest) k v =
     (if k' = k then (k', c + v) # rest else (k', c) # counter_add rest k v)"

text \<open>The summand of \<^verbatim>\<open>rcounts[rname] += ...\<close>: a bool, added as 0 or 1.\<close>

definition rule_match :: "rinfo \<Rightarrow> Ship \<Rightarrow> int" where
  "rule_match ri ship =
     (if rtype ri = Rships then of_bool (ship_name ship \<in> set (members ri))
      else of_bool (ShipType_value (ship_type ship) \<in> set (members ri)))"

text \<open>The inner loop \<^verbatim>\<open>for rname, rinfo in self.restrictions.items()\<close> of \<^verbatim>\<open>is_valid\<close>.\<close>

fun count_ship :: "(string \<times> rinfo) list \<Rightarrow> Ship \<Rightarrow> counter \<Rightarrow> counter" where
  "count_ship [] ship rcounts = rcounts"
| "count_ship ((rname, ri) # rest) ship rcounts =
     count_ship rest ship (counter_add rcounts rname (rule_match ri ship))"

text \<open>
  The outer loop \<^verbatim>\<open>for ship in composition\<close>; \<open>None\<close> is the \<^verbatim>\<open>return False\<close> at a banned
  ship.
\<close>

fun count_all :: "'a tc_RestrictionSet_scheme \<Rightarrow> composition \<Rightarrow> counter \<Rightarrow> counter option" where
  "count_all rs [] rcounts = Some rcounts"
| "count_all rs (ship # rest) rcounts =
     (if is_banned rs ship then None
      else count_all rs rest (count_ship (restrictions rs) ship rcounts))"

text \<open>
  The loop \<^verbatim>\<open>for rule, c in rcounts.items()\<close>; \<^verbatim>\<open>self.restrictions[rule]\<close> raises KeyError on
  a missing key.
\<close>

fun check_counts :: "'a tc_RestrictionSet_scheme \<Rightarrow> counter \<Rightarrow> error + bool" where
  "check_counts rs [] = Inr True"
| "check_counts rs ((rule, c) # rest) =
     (case map_of (restrictions rs) rule of
        None \<Rightarrow> Inl KeyError
      | Some ri \<Rightarrow> if c > allowed ri then Inr False else check_counts rs rest)"

definition is_valid_run :: "'a tc_RestrictionSet_scheme \<Rightarrow> composition \<Rightarrow> error + bool" where
  "is_valid_run rs composition =
     (if int (length composition) > size_limit rs then Inr False
      else case count_all rs composition [] of
             None \<Rightarrow> Inr False
           | Some rcounts \<Rightarrow> check_counts rs rcounts)"

text \<open>
  \<^verbatim>\<open>is_valid\<close> as the callers use it, a truth value. \<open>is_valid_run_total\<close> below shows that
  the KeyError branch of \<open>is_valid_run\<close> is never taken, so nothing is lost.
\<close>

definition is_valid :: "'a tc_RestrictionSet_scheme \<Rightarrow> composition \<Rightarrow> bool" where
  "is_valid rs composition = (is_valid_run rs composition = Inr True)"

definition is_full_team :: "'a tc_RestrictionSet_scheme \<Rightarrow> composition \<Rightarrow> bool" where
  "is_full_team rs composition = (int (length composition) = size_limit rs)"

section \<open>The enumerator\<close>

text \<open>
  \<^verbatim>\<open>RestrictionSet.team_compositions\<close> of fleetcomp.py; a generator is given by the list of
  what it yields. The two equations are the two outcomes of \<^verbatim>\<open>if not group\<close>.
\<close>

fun team_compositions ::
  "'a tc_RestrictionSet_scheme \<Rightarrow> composition \<Rightarrow> Player list \<Rightarrow> composition list" where
  "team_compositions rs selected [] =
     (if is_valid rs selected \<and> is_full_team rs selected then [selected] else [])"
| "team_compositions rs selected (p # rest) =
     (if is_valid rs selected \<and> is_full_team rs selected then [selected]
      else concat (map (\<lambda>ship. team_compositions rs (set_add selected ship) rest)
                       (player_ships p)))"

text \<open>The same method in teamcomp.py tests \<^verbatim>\<open>is_full_team\<close> first.\<close>

fun tc_team_compositions ::
  "'a tc_RestrictionSet_scheme \<Rightarrow> composition \<Rightarrow> Player list \<Rightarrow> composition list" where
  "tc_team_compositions rs selected [] =
     (if is_full_team rs selected \<and> is_valid rs selected then [selected] else [])"
| "tc_team_compositions rs selected (p # rest) =
     (if is_full_team rs selected \<and> is_valid rs selected then [selected]
      else concat (map (\<lambda>ship. tc_team_compositions rs (set_add selected ship) rest)
                       (player_ships p)))"

text \<open>
  \<^verbatim>\<open>itertools.combinations(iterable, r)\<close> for \<open>r \<ge> 0\<close>: the \<open>r\<close>-element subsequences, in
  lexicographic order of positions.
\<close>

fun combinations :: "'a list \<Rightarrow> nat \<Rightarrow> 'a list list" where
  "combinations xs 0 = [[]]"
| "combinations [] (Suc r) = []"
| "combinations (x # xs) (Suc r) =
     map ((#) x) (combinations xs r) @ combinations xs (Suc r)"

text \<open>
  \<^verbatim>\<open>Team.generate_comps\<close> of fleetcomp.py; \<^verbatim>\<open>combinations\<close> raises ValueError on a negative
  \<open>r\<close>. \<open>players\<close> is the set \<^verbatim>\<open>self.players\<close> in iteration order.
\<close>

definition generate_comps :: "Team \<Rightarrow> 'a tc_RestrictionSet_scheme \<Rightarrow> error + composition list" where
  "generate_comps team restriction_set =
     (if size_limit restriction_set < 0 then Inl ValueError
      else Inr (concat (map (\<lambda>group. team_compositions restriction_set [] group)
                  (combinations (players team) (nat (size_limit restriction_set))))))"

text \<open>\<^verbatim>\<open>Team.generate_comps\<close> of teamcomp.py: the width is the literal 7.\<close>

definition tc_generate_comps :: "Team \<Rightarrow> 'a tc_RestrictionSet_scheme \<Rightarrow> composition list" where
  "tc_generate_comps team restriction_set =
     concat (map (\<lambda>group. tc_team_compositions restriction_set [] group)
               (combinations (players team) 7))"

declare team_compositions.simps [simp del]

declare tc_team_compositions.simps [simp del]

section \<open>Derivation, counting and construction\<close>

text \<open>
  \<^verbatim>\<open>RestrictionSet.with_team_size\<close> (fleetcomp.py): the value of the object returned, a deep
  copy of \<open>self\<close> with \<open>size_limit\<close> assigned.
\<close>

definition with_team_size :: "RestrictionSet \<Rightarrow> int \<Rightarrow> RestrictionSet" where
  "with_team_size self n = self\<lparr>size_limit := n\<rparr>"

text \<open>
  The same call on objects: the heap lists the RestrictionSet objects by address,
  \<^verbatim>\<open>copy.deepcopy\<close> allocates the next address, and the assignment goes to the new object.
  \<open>None\<close> stands for an address that holds no object, on which no method can be called.
\<close>

type_synonym heap = "RestrictionSet list"

definition with_team_size_obj :: "heap \<Rightarrow> nat \<Rightarrow> int \<Rightarrow> (heap \<times> nat) option" where
  "with_team_size_obj h self n =
     (if self < length h then Some (h @ [with_team_size (h ! self) n], length h) else None)"

text \<open>
  \<^verbatim>\<open>count\<close> of fleetcomp.py after its two \<^verbatim>\<open>load\<close> calls, on the team and the restrictions
  they returned; \<open>tso\<close> is the override (\<open>None\<close> when absent). The result is the number
  printed, \<^verbatim>\<open>ilen(compgen)\<close>.
\<close>

definition count :: "Team \<Rightarrow> RestrictionSet \<Rightarrow> int option \<Rightarrow> error + nat" where
  "count team loaded tso =
     (let rset = (case tso of None \<Rightarrow> loaded | Some n \<Rightarrow> with_team_size loaded n);
          x = int (length (filter Player_bool (players team)))
      in if x < size_limit rset
         then Inl (ConfigurationError (size_limit rset) x)
         else case generate_comps team rset of
                Inl e \<Rightarrow> Inl e
              | Inr compgen \<Rightarrow> Inr (length compgen))"

text \<open>\<^verbatim>\<open>count\<close> of teamcomp.py, likewise: it has no check and no override.\<close>

definition tc_count :: "Team \<Rightarrow> 'a tc_RestrictionSet_scheme \<Rightarrow> nat" where
  "tc_count team rset = length (tc_generate_comps team rset)"








text \<open>
  \<^verbatim>\<open>Player.__init__\<close>: \<open>ships\<close> is the dict from type strings to lists of ship names, by its
  items; \<open>fresh\<close> is the next unused object identity, returned advanced. \<^verbatim>\<open>ShipType(...)\<close> is
  evaluated once per ship name, so an unknown type string with no names raises nothing.
\<close>

fun Player_ships_loop ::
  "nat \<Rightarrow> string \<Rightarrow> (string \<times> string list) list \<Rightarrow> composition
     \<Rightarrow> error + (composition \<times> nat)" where
  "Player_ships_loop fresh nm [] shipset = Inr (shipset, fresh)"
| "Player_ships_loop fresh nm ((ship_type_str, []) # rest) shipset =
     Player_ships_loop fresh nm rest shipset"
| "Player_ships_loop fresh nm ((ship_type_str, sn # sns) # rest) shipset =
     (case ShipType_of ship_type_str of
        Inl e \<Rightarrow> Inl e
      | Inr ty \<Rightarrow>
          Player_ships_loop (Suc fresh) nm ((ship_type_str, sns) # rest)
            (set_add shipset (Ship_init fresh sn ty nm)))"

definition Player_init ::
  "nat \<Rightarrow> string \<Rightarrow> (string \<times> string list) list \<Rightarrow> error + (Player \<times> nat)" where
  "Player_init fresh nm ships =
     (case Player_ships_loop fresh nm ships [] of
        Inl e \<Rightarrow> Inl e
      | Inr (shipset, fresh') \<Rightarrow> Inr (\<lparr>player_name = nm, player_ships = shipset\<rparr>, fresh'))"

text \<open>
  \<^verbatim>\<open>Team.load\<close> of fleetcomp.py after \<^verbatim>\<open>json.load\<close>: \<open>team_info\<close> is the JSON object from player
  names to objects from tier keys to ship dicts, by its items; \<open>tier_key\<close> is \<^verbatim>\<open>str(tier)\<close>.
  \<^verbatim>\<open>player_info[tier_key]\<close> raises KeyError on a missing tier. A Player is hashed and compared
  by identity, so \<^verbatim>\<open>players.add\<close> always adds.
\<close>

fun Team_load_loop ::
  "nat \<Rightarrow> (string \<times> (string \<times> (string \<times> string list) list) list) list \<Rightarrow> string
     \<Rightarrow> Player list \<Rightarrow> error + (Player list \<times> nat)" where
  "Team_load_loop fresh [] tier_key ps = Inr (ps, fresh)"
| "Team_load_loop fresh ((nm, player_info) # rest) tier_key ps =
     (case map_of player_info tier_key of
        None \<Rightarrow> Inl KeyError
      | Some ships \<Rightarrow>
          (case Player_init fresh nm ships of
             Inl e \<Rightarrow> Inl e
           | Inr (p, fresh') \<Rightarrow> Team_load_loop fresh' rest tier_key (ps @ [p])))"

definition Team_load ::
  "nat \<Rightarrow> (string \<times> (string \<times> (string \<times> string list) list) list) list \<Rightarrow> string
     \<Rightarrow> error + (Team \<times> nat)" where
  "Team_load fresh team_info tier_key =
     (case Team_load_loop fresh team_info tier_key [] of
        Inl e \<Rightarrow> Inl e
      | Inr (ps, fresh') \<Rightarrow> Inr (\<lparr>players = ps\<rparr>, fresh'))"

text \<open>Reading a counter: \<^verbatim>\<open>rcounts[k]\<close>, 0 for a missing key.\<close>

definition cget :: "counter \<Rightarrow> string \<Rightarrow> int" where
  "cget rc k = (case map_of rc k of None \<Rightarrow> 0 | Some c \<Rightarrow> c)"

section \<open>The specification's vocabulary\<close>

text \<open>
  An asset matches a counted rule by name for a by-name rule and by category for a
  by-category rule.
\<close>

definition matches :: "rinfo \<Rightarrow> Ship \<Rightarrow> bool" where
  "matches ri ship =
     (case rtype ri of
        Rships \<Rightarrow> ship_name ship \<in> set (members ri)
      | Rtypes \<Rightarrow> ShipType_value (ship_type ship) \<in> set (members ri))"

text \<open>The set made of a combination of ships, one per entry: \<^verbatim>\<open>set(combination)\<close>.\<close>

definition set_of :: "Ship list \<Rightarrow> composition" where
  "set_of ships = foldl set_add [] ships"

text \<open>
  The roster invariant: every asset of an entry is owned by that entry, and no two entries
  share a name (they are the keys of one JSON object).
\<close>

definition roster_ok :: "Player list \<Rightarrow> bool" where
  "roster_ok ps =
     (distinct (map player_name ps) \<and>
      list_all (\<lambda>p. list_all (\<lambda>s. ship_player s = player_name p) (player_ships p)) ps)"

text \<open>
  Two rule sets that differ in their ban lists only, the second banning at least what the
  first bans.
\<close>

definition more_bans :: "'a tc_RestrictionSet_scheme \<Rightarrow> 'a tc_RestrictionSet_scheme \<Rightarrow> bool" where
  "more_bans rs rs' =
     (banned_ships rs \<subseteq> banned_ships rs' \<and> banned_types rs \<subseteq> banned_types rs' \<and>
      size_limit rs' = size_limit rs \<and> restrictions rs' = restrictions rs)"

section \<open>The specification's scenario\<close>

definition Alpha :: Ship where
  "Alpha = Ship_init 0 ''Alpha'' SS ''A''"

definition Bravo :: Ship where
  "Bravo = Ship_init 1 ''Bravo'' DD ''B''"

definition Charlie :: Ship where
  "Charlie = Ship_init 2 ''Charlie'' SS ''C''"

definition roster :: Team where
  "roster = \<lparr>players = [\<lparr>player_name = ''A'', player_ships = [Alpha]\<rparr>,
                        \<lparr>player_name = ''B'', player_ships = [Bravo]\<rparr>,
                        \<lparr>player_name = ''C'', player_ships = [Charlie]\<rparr>]\<rparr>"

definition no_double_SS :: rinfo where
  "no_double_SS = \<lparr>rtype = Rtypes, members = [''SS''], allowed = 1\<rparr>"

definition rule_set :: "int \<Rightarrow> RestrictionSet" where
  "rule_set n = \<lparr>size_limit = n, banned_ships = {}, banned_types = {},
                 restrictions = [(''no double SS'', no_double_SS)], tier = 10\<rparr>"



section \<open>Properties\<close>

lemma is_valid_empty: "0 \<le> size_limit rs \<Longrightarrow> is_valid rs []"
  by (simp add: is_valid_def is_valid_run_def)

subsection \<open>What the validator computes\<close>

lemma map_of_counter_add:
  "map_of (counter_add rc k v) k' = (if k' = k then Some (cget rc k + v) else map_of rc k')"
  by (induction rc) (auto simp add: cget_def)

lemma cget_Nil: "cget [] k = 0"
  by (simp add: cget_def)

lemma keys_counter_add: "fst ` set (counter_add rc k v) = insert k (fst ` set rc)"
  by (induction rc k v rule: counter_add.induct) force+

lemma distinct_counter_add:
  "distinct (map fst rc) \<Longrightarrow> distinct (map fst (counter_add rc k v))"
proof (induction rc)
  case Nil
  then show ?case by simp
next
  case (Cons a rc)
  obtain k' c where a: "a = (k', c)" by (cases a)
  from Cons show ?case
    using keys_counter_add [of rc k v] by (auto simp add: a)
qed

lemma cget_counter_add:
  "cget (counter_add rc k v) k' = (if k' = k then cget rc k + v else cget rc k')"
  by (simp add: cget_def map_of_counter_add)

lemma keys_count_ship:
  "fst ` set (count_ship rules ship rc) = fst ` set rules \<union> fst ` set rc"
  by (induction rules ship rc rule: count_ship.induct) (auto simp add: keys_counter_add)

lemma distinct_count_ship:
  "distinct (map fst rc) \<Longrightarrow> distinct (map fst (count_ship rules ship rc))"
  by (induction rules ship rc rule: count_ship.induct) (auto simp add: distinct_counter_add)

lemma cget_count_ship:
  "distinct (map fst rules) \<Longrightarrow>
   cget (count_ship rules ship rc) k =
     cget rc k + (case map_of rules k of None \<Rightarrow> 0 | Some ri \<Rightarrow> rule_match ri ship)"
proof (induction rules ship rc rule: count_ship.induct)
  case (1 ship rcounts)
  then show ?case by simp
next
  case (2 rname ri rest ship rcounts)
  then have "map_of rest rname = None"
    by (simp add: map_of_eq_None_iff)
  with 2 show ?case
    by (auto simp add: cget_counter_add)
qed

lemma count_all_None:
  "count_all rs c rc = None \<longleftrightarrow> (\<exists>ship \<in> set c. is_banned rs ship)"
  by (induction c arbitrary: rc) auto

lemma keys_count_all:
  "count_all rs c rc = Some rc' \<Longrightarrow>
   fst ` set rc' = fst ` set rc \<union> (if c = [] then {} else fst ` set (restrictions rs))"
proof (induction c arbitrary: rc)
  case Nil
  then show ?case by simp
next
  case (Cons ship c)
  then have "count_all rs c (count_ship (restrictions rs) ship rc) = Some rc'"
    by (simp split: if_splits)
  from Cons.IH [OF this] show ?case
    by (auto simp add: keys_count_ship)
qed

lemma distinct_count_all:
  "count_all rs c rc = Some rc' \<Longrightarrow> distinct (map fst rc) \<Longrightarrow> distinct (map fst rc')"
proof (induction c arbitrary: rc)
  case Nil
  then show ?case by simp
next
  case (Cons ship c)
  then have "count_all rs c (count_ship (restrictions rs) ship rc) = Some rc'"
    by (simp split: if_splits)
  from Cons.IH [OF this] Cons.prems(2) show ?case
    by (simp add: distinct_count_ship)
qed

lemma cget_count_all:
  "count_all rs c rc = Some rc' \<Longrightarrow> distinct (map fst (restrictions rs)) \<Longrightarrow>
   cget rc' k =
     cget rc k + (case map_of (restrictions rs) k of
                    None \<Rightarrow> 0
                  | Some ri \<Rightarrow> sum_list (map (rule_match ri) c))"
proof (induction c arbitrary: rc)
  case Nil
  then show ?case by (simp split: option.splits)
next
  case (Cons ship c)
  then have "count_all rs c (count_ship (restrictions rs) ship rc) = Some rc'"
    by (simp split: if_splits)
  from Cons.IH [OF this Cons.prems(2)] Cons.prems(2) show ?case
    by (simp add: cget_count_ship split: option.splits)
qed

lemma check_counts_total:
  "fst ` set rc \<subseteq> fst ` set (restrictions rs) \<Longrightarrow>
   check_counts rs rc =
     Inr (\<forall>(k, c) \<in> set rc. \<forall>ri. map_of (restrictions rs) k = Some ri \<longrightarrow> c \<le> allowed ri)"
proof (induction rc)
  case Nil
  then show ?case by simp
next
  case (Cons a rc)
  obtain k c where a: "a = (k, c)" by (cases a)
  from Cons.prems have "k \<in> fst ` set (restrictions rs)" by (simp add: a)
  then obtain ri where ri: "map_of (restrictions rs) k = Some ri"
    by (metis map_of_eq_None_iff not_Some_eq)
  from Cons.prems have "fst ` set rc \<subseteq> fst ` set (restrictions rs)" by simp
  from Cons.IH [OF this] ri show ?case
    by (auto simp add: a)
qed

lemma is_valid_run_total: "is_valid_run rs c = Inr (is_valid rs c)"
proof -
  have "\<exists>b. is_valid_run rs c = Inr b"
  proof (cases "count_all rs c []")
    case None
    then show ?thesis by (auto simp add: is_valid_run_def)
  next
    case (Some rc)
    from keys_count_all [OF Some] have "fst ` set rc \<subseteq> fst ` set (restrictions rs)"
      by (auto split: if_splits)
    from check_counts_total [OF this] Some show ?thesis
      by (auto simp add: is_valid_run_def)
  qed
  then show ?thesis by (auto simp add: is_valid_def)
qed

lemma sum_list_rule_match:
  "sum_list (map (rule_match ri) c) = int (length (filter (matches ri) c))"
  by (induction c) (auto simp add: rule_match_def matches_def split: rtype.splits)

lemma is_valid_char:
  assumes d: "distinct (map fst (restrictions rs))"
  shows "is_valid rs c \<longleftrightarrow>
     \<not> int (length c) > size_limit rs \<and>
     (\<forall>ship \<in> set c. \<not> is_banned rs ship) \<and>
     (c = [] \<or> (\<forall>(rname, ri) \<in> set (restrictions rs).
                 int (length (filter (matches ri) c)) \<le> allowed ri))"
proof (cases "int (length c) > size_limit rs \<or> (\<exists>ship \<in> set c. is_banned rs ship)")
  case True
  then show ?thesis
    using count_all_None [of rs c "[]"]
    by (auto simp add: is_valid_def is_valid_run_def)
next
  case False
  then have "count_all rs c [] \<noteq> None"
    by (simp add: count_all_None)
  then obtain rc where rc: "count_all rs c [] = Some rc" by auto
  have keys: "fst ` set rc = (if c = [] then {} else fst ` set (restrictions rs))"
    using keys_count_all [OF rc] by simp
  have dist: "distinct (map fst rc)"
    using distinct_count_all [OF rc] by simp
  have val: "cget rc k = (case map_of (restrictions rs) k of
                    None \<Rightarrow> 0
                  | Some ri \<Rightarrow> int (length (filter (matches ri) c)))" for k
    using cget_count_all [OF rc d, of k]
    by (simp add: cget_Nil sum_list_rule_match split: option.splits)
  have sub: "fst ` set rc \<subseteq> fst ` set (restrictions rs)"
    using keys by (auto split: if_splits)
  have "is_valid rs c \<longleftrightarrow>
      (\<forall>(k, v) \<in> set rc. \<forall>ri. map_of (restrictions rs) k = Some ri \<longrightarrow> v \<le> allowed ri)"
    using False rc check_counts_total [OF sub]
    by (simp add: is_valid_def is_valid_run_def)
  also have "\<dots> \<longleftrightarrow> (c = [] \<or> (\<forall>(rname, ri) \<in> set (restrictions rs).
                 int (length (filter (matches ri) c)) \<le> allowed ri))"
  proof (cases "c = []")
    case True
    with keys show ?thesis by simp
  next
    case nonempty: False
    have pair: "(k, v) \<in> set rc \<longleftrightarrow> k \<in> fst ` set (restrictions rs) \<and> v = cget rc k" for k v
    proof
      assume "(k, v) \<in> set rc"
      with dist have "map_of rc k = Some v" by simp
      moreover from \<open>(k, v) \<in> set rc\<close> have "k \<in> fst ` set rc" by force
      ultimately show "k \<in> fst ` set (restrictions rs) \<and> v = cget rc k"
        using keys nonempty by (simp add: cget_def)
    next
      assume h: "k \<in> fst ` set (restrictions rs) \<and> v = cget rc k"
      with keys nonempty have "k \<in> fst ` set rc" by simp
      then obtain v' where "map_of rc k = Some v'"
        by (metis map_of_eq_None_iff not_Some_eq)
      with h show "(k, v) \<in> set rc"
        by (simp add: cget_def map_of_SomeD)
    qed
    have rules: "(k, ri) \<in> set (restrictions rs) \<longleftrightarrow> map_of (restrictions rs) k = Some ri" for k ri
      using d by simp
    show ?thesis
      using nonempty
      apply (simp add: split_def)
      apply (rule iffI)
       apply clarify
      subgoal for k ri
        using pair [of k "cget rc k"] val [of k] rules [of k ri]
        by force
      apply clarify
      subgoal for k v ri
        using pair [of k v] val [of k] rules [of k ri]
        by force
      done
  qed
  finally show ?thesis using False by simp
qed

text \<open>
  C5. For a rule set whose rule names are the keys of a dict (each once) and whose bounds
  are non-negative, \<^verbatim>\<open>is_valid\<close> returns a truth value, and returns False exactly when the
  composition has more than \<open>size_limit\<close> members, or one of its ships is banned, or for
  some counted rule the number of its ships matching the rule (by name or by category, as
  the rule says) exceeds the bound; and \<^verbatim>\<open>is_banned\<close> holds of a ship exactly when its name
  is a banned name or its category a banned category. (The bounds matter for the empty
  composition only: its counter stays empty, so it is valid whatever they are, as
  \<open>is_valid_empty\<close> says.)
\<close>

theorem is_valid_contract:
  assumes "distinct (map fst (restrictions rs))"
    and "list_all (\<lambda>(rname, ri). 0 \<le> allowed ri) (restrictions rs)"
  shows "is_valid_run rs c =
           Inr (\<not> (int (length c) > size_limit rs \<or>
                    (\<exists>ship \<in> set c. is_banned rs ship) \<or>
                    (\<exists>(rname, ri) \<in> set (restrictions rs).
                       int (length (filter (matches ri) c)) > allowed ri))) \<and>
         (is_banned rs ship \<longleftrightarrow>
            ship_name ship \<in> banned_ships rs \<or>
            ShipType_value (ship_type ship) \<in> banned_types rs)"
proof -
  have nonneg: "0 \<le> allowed ri" if "(rname, ri) \<in> set (restrictions rs)" for rname ri
    using assms(2) that by (auto simp add: list_all_iff)
  have "(c = [] \<or> (\<forall>(rname, ri) \<in> set (restrictions rs).
                 int (length (filter (matches ri) c)) \<le> allowed ri)) \<longleftrightarrow>
        \<not> (\<exists>(rname, ri) \<in> set (restrictions rs).
                 int (length (filter (matches ri) c)) > allowed ri)"
    using nonneg by (cases "c = []") (force simp add: not_less)+
  then have "is_valid rs c \<longleftrightarrow>
      \<not> (int (length c) > size_limit rs \<or>
          (\<exists>ship \<in> set c. is_banned rs ship) \<or>
          (\<exists>(rname, ri) \<in> set (restrictions rs).
             int (length (filter (matches ri) c)) > allowed ri))"
    using is_valid_char [OF assms(1), of c] by blast
  then show ?thesis
    using is_valid_run_total [of rs c] by (simp add: is_banned_def)
qed

theorem is_valid_contract_witness:
  "distinct (map fst (restrictions (rule_set 2))) \<and>
   list_all (\<lambda>(rname, ri). 0 \<le> allowed ri) (restrictions (rule_set 2)) \<and>
   is_valid_run (rule_set 2) [Alpha, Charlie] = Inr False \<and>
   int (length (filter (matches no_double_SS) [Alpha, Charlie])) = 2 \<and>
   is_valid_run (rule_set 2) [Alpha, Bravo] = Inr True"
proof -
  have d: "distinct (map fst (restrictions (rule_set 2)))"
    by (simp add: rule_set_def)
  have a: "list_all (\<lambda>(rname, ri). 0 \<le> allowed ri) (restrictions (rule_set 2))"
    by (simp add: rule_set_def no_double_SS_def)
  from is_valid_contract [OF d a, of "[Alpha, Charlie]" Alpha]
    is_valid_contract [OF d a, of "[Alpha, Bravo]" Alpha] d a
  show ?thesis
    by (simp add: rule_set_def no_double_SS_def matches_def Alpha_def Bravo_def Charlie_def
        Ship_init_def is_banned_def)
qed

subsection \<open>The empty composition\<close>

text \<open>
  C10. Under a non-negative \<open>size_limit\<close> the empty composition is valid: it is not too
  long, the loop over its ships never runs and the counter stays empty. So when
  \<open>size_limit\<close> is 0, \<^verbatim>\<open>team_compositions\<close> called on the empty selection yields that
  selection at once and returns, whatever the group (in both files).
\<close>

theorem empty_composition_valid:
  "(0 \<le> size_limit rs \<longrightarrow> is_valid rs []) \<and>
   (size_limit rs = 0 \<longrightarrow>
      team_compositions rs [] grp = [[]] \<and> tc_team_compositions rs [] grp = [[]])"
  by (cases grp)
     (simp_all add: is_valid_empty is_full_team_def team_compositions.simps
        tc_team_compositions.simps)

theorem empty_composition_valid_witness:
  "size_limit (rule_set 0) = 0 \<and> is_valid (rule_set 0) [] \<and>
   team_compositions (rule_set 0) [] (players roster) = [[]] \<and>
   tc_team_compositions (rule_set 0) [] (players roster) = [[]]"
  using empty_composition_valid [of "rule_set 0" "players roster"]
  by (simp add: rule_set_def)

subsection \<open>Deriving a rule set with another team size\<close>

text \<open>
  C6. \<^verbatim>\<open>with_team_size(r, n)\<close> returns a rule set whose \<open>size_limit\<close> is \<open>n\<close> and whose
  other fields are those of \<open>r\<close>. On the heap the call allocates one new object, which holds
  that value, and leaves every object that was there, \<open>r\<close> among them, as it was.
\<close>

theorem with_team_size_derivation:
  "size_limit (with_team_size r n) = n \<and>
   tier (with_team_size r n) = tier r \<and>
   banned_ships (with_team_size r n) = banned_ships r \<and>
   banned_types (with_team_size r n) = banned_types r \<and>
   restrictions (with_team_size r n) = restrictions r \<and>
   (self < length h \<longrightarrow>
      (\<exists>h'. with_team_size_obj h self n = Some (h', length h) \<and>
            length h' = Suc (length h) \<and>
            h' ! length h = with_team_size (h ! self) n \<and>
            take (length h) h' = h \<and>
            h' ! self = h ! self))"
  by (simp add: with_team_size_def with_team_size_obj_def nth_append)

theorem with_team_size_derivation_witness:
  "size_limit (with_team_size (rule_set 2) 3) = 3 \<and>
   with_team_size_obj [rule_set 2] 0 3 = Some ([rule_set 2, rule_set 3], 1)"
  using with_team_size_derivation [of "rule_set 2" 3 0 "[rule_set 2]"]
  by (simp add: with_team_size_def with_team_size_obj_def rule_set_def)

subsection \<open>The constructor and the caller's dictionary\<close>




subsection \<open>Equality of ships\<close>

text \<open>
  C8. The specification takes two ships with the same name, category and owner to be
  equal. The class hashes that triple but defines no \<^verbatim>\<open>__eq__\<close>: a player whose list names
  \<^verbatim>\<open>"Alpha"\<close> twice gets two ships, of equal hash and unequal, and a ship set of size 2.
\<close>

theorem Ship_equality_is_identity:
  "Player_init 0 ''A'' [(''SS'', [''Alpha'', ''Alpha''])] =
     Inr (\<lparr>player_name = ''A'',
           player_ships = [Ship_init 0 ''Alpha'' SS ''A'', Ship_init 1 ''Alpha'' SS ''A'']\<rparr>, 2) \<and>
   Ship_hash (Ship_init 0 ''Alpha'' SS ''A'') = Ship_hash (Ship_init 1 ''Alpha'' SS ''A'') \<and>
   \<not> Ship_eq (Ship_init 0 ''Alpha'' SS ''A'') (Ship_init 1 ''Alpha'' SS ''A'')"
  by (simp add: Player_init_def ShipType_of_def set_add_def set_contains_def Ship_eq_def
      Ship_init_def Ship_hash_def numeral_2_eq_2)

subsection \<open>Completeness of the search\<close>

lemma length_set_add: "length (set_add sel ship) \<le> Suc (length sel)"
  by (simp add: set_add_def)

lemma length_set_add_ge: "length sel \<le> length (set_add sel ship)"
  by (simp add: set_add_def)

lemma team_compositions_unfull:
  "\<not> is_full_team rs sel \<Longrightarrow>
   team_compositions rs sel (p # rest) =
     concat (map (\<lambda>ship. team_compositions rs (set_add sel ship) rest) (player_ships p))"
  by (simp add: team_compositions.simps)

lemma tc_team_compositions_eq: "tc_team_compositions rs sel grp = team_compositions rs sel grp"
  by (induction grp arbitrary: sel)
     (auto simp add: team_compositions.simps tc_team_compositions.simps conj_commute
        cong: map_cong)

lemma filter_concat_map:
  "filter P (concat (map f xs)) = concat (map (\<lambda>x. filter P (f x)) xs)"
  by (induction xs) auto

lemma team_compositions_product:
  "int (length sel) + int (length grp) \<le> size_limit rs \<Longrightarrow>
   team_compositions rs sel grp =
     filter (\<lambda>c. is_valid rs c \<and> is_full_team rs c)
       (map (foldl set_add sel) (product_lists (map player_ships grp)))"
proof (induction grp arbitrary: sel)
  case Nil
  then show ?case by (simp add: team_compositions.simps)
next
  case (Cons p rest)
  then have unfull: "\<not> is_full_team rs sel"
    by (simp add: is_full_team_def)
  have step: "team_compositions rs (set_add sel ship) rest =
     filter (\<lambda>c. is_valid rs c \<and> is_full_team rs c)
       (map (foldl set_add (set_add sel ship)) (product_lists (map player_ships rest)))"
    for ship
  proof (rule Cons.IH)
    from Cons.prems length_set_add [of sel ship]
    show "int (length (set_add sel ship)) + int (length rest) \<le> size_limit rs"
      by simp
  qed
  show ?case
    by (simp add: team_compositions_unfull [OF unfull] step map_concat filter_concat_map
        comp_def)
qed

text \<open>
  C1. For a group of exactly \<open>size_limit\<close> entries, what \<^verbatim>\<open>team_compositions\<close> yields from
  the empty selection is, as a multiset, what remains of the Cartesian product of the
  entries' ship sets, each combination made a set, after keeping those that \<^verbatim>\<open>is_valid\<close>
  accepts and that have \<open>size_limit\<close> members. The same holds in teamcomp.py.
\<close>

theorem team_compositions_complete:
  "int (length grp) = size_limit rs \<Longrightarrow>
   mset (team_compositions rs [] grp) =
     mset (filter (\<lambda>c. is_valid rs c \<and> int (length c) = size_limit rs)
            (map set_of (product_lists (map player_ships grp)))) \<and>
   mset (tc_team_compositions rs [] grp) =
     mset (filter (\<lambda>c. is_valid rs c \<and> int (length c) = size_limit rs)
            (map set_of (product_lists (map player_ships grp))))"
  using team_compositions_product [of "[]" grp rs]
  by (simp add: tc_team_compositions_eq is_full_team_def set_of_def [abs_def])

theorem team_compositions_complete_witness:
  "int (length (take 2 (players roster))) = size_limit (rule_set 2) \<and>
   product_lists (map player_ships (take 2 (players roster))) = [[Alpha, Bravo]] \<and>
   mset (team_compositions (rule_set 2) [] (take 2 (players roster))) = {#[Alpha, Bravo]#}"
proof -
  have len: "int (length (take 2 (players roster))) = size_limit (rule_set 2)"
    by (simp add: roster_def rule_set_def)
  have prod: "product_lists (map player_ships (take 2 (players roster))) = [[Alpha, Bravo]]"
    by (simp add: roster_def numeral_2_eq_2)
  have valid: "is_valid (rule_set 2) [Alpha, Bravo]"
    by (simp add: is_valid_def is_valid_run_def rule_set_def no_double_SS_def Alpha_def
        Bravo_def Ship_init_def is_banned_def rule_match_def)
  have made: "set_of [Alpha, Bravo] = [Alpha, Bravo]"
    by (simp add: set_of_def set_add_def set_contains_def Ship_eq_def Alpha_def Bravo_def
        Ship_init_def)
  from team_compositions_complete [OF len] len prod valid made show ?thesis
    by (simp add: rule_set_def)
qed

subsection \<open>Exactness of the enumeration\<close>

lemma combinations_props:
  "grp \<in> set (combinations xs r) \<Longrightarrow>
   length grp = r \<and> set grp \<subseteq> set xs \<and> (distinct (map f xs) \<longrightarrow> distinct (map f grp))"
proof (induction xs r arbitrary: grp rule: combinations.induct)
  case (1 xs)
  then show ?case by simp
next
  case (2 r)
  then show ?case by simp
next
  case (3 x xs r)
  from "3.prems" consider
      (take) g where "grp = x # g" "g \<in> set (combinations xs r)"
    | (skip) "grp \<in> set (combinations xs (Suc r))"
    by auto
  then show ?case
  proof cases
    case take
    from "3.IH"(1) [OF take(2)] show ?thesis
      by (auto simp add: take(1))
  next
    case skip
    from "3.IH"(2) [OF skip] show ?thesis
      by auto
  qed
qed

lemma combinations_short: "length xs < r \<Longrightarrow> combinations xs r = []"
  by (induction xs r rule: combinations.induct) auto

lemma combinations_all: "combinations xs (length xs) = [xs]"
  by (induction xs) (simp_all add: combinations_short)

lemma length_foldl_set_add: "length (foldl set_add sel t) \<le> length sel + length t"
proof (induction t arbitrary: sel)
  case Nil
  then show ?case by simp
next
  case (Cons x t)
  from Cons [of "set_add sel x"] length_set_add [of sel x] show ?case
    by simp
qed

lemma foldl_set_add_full:
  "length (foldl set_add sel t) = length sel + length t \<Longrightarrow> foldl set_add sel t = sel @ t"
proof (induction t arbitrary: sel)
  case Nil
  then show ?case by simp
next
  case (Cons x t)
  show ?case
  proof (cases "set_contains sel x")
    case True
    then have "set_add sel x = sel" by (simp add: set_add_def)
    with Cons.prems length_foldl_set_add [of sel t] show ?thesis by simp
  next
    case False
    then have add: "set_add sel x = sel @ [x]" by (simp add: set_add_def)
    with Cons.prems have "length (foldl set_add (sel @ [x]) t) = length (sel @ [x]) + length t"
      by simp
    from Cons.IH [OF this] add show ?thesis by simp
  qed
qed

lemma owners_of_choice:
  "list_all2 (\<lambda>s p. s \<in> set (player_ships p)) t grp \<Longrightarrow>
   list_all (\<lambda>p. list_all (\<lambda>s. ship_player s = player_name p) (player_ships p)) grp \<Longrightarrow>
   map ship_player t = map player_name grp"
  by (induction t grp rule: list_all2_induct) (auto simp add: list_all_iff)

lemma roster_ok_combination:
  assumes "roster_ok ps" and "grp \<in> set (combinations ps r)"
  shows "roster_ok grp \<and> length grp = r"
proof -
  from combinations_props [OF assms(2), of player_name] assms(1) show ?thesis
    by (auto simp add: roster_ok_def list_all_iff)
qed

lemma team_compositions_exact:
  assumes ok: "roster_ok grp"
    and len: "int (length grp) = size_limit rs"
    and c: "c \<in> set (team_compositions rs [] grp)"
  shows "int (length c) = size_limit rs \<and> distinct (map ship_player c) \<and> is_valid rs c \<and>
         list_all2 (\<lambda>s p. s \<in> set (player_ships p)) c grp"
proof -
  from c team_compositions_product [of "[]" grp rs] len
  obtain t where t: "t \<in> set (product_lists (map player_ships grp))"
    and ct: "c = foldl set_add [] t" and valid: "is_valid rs c" and full: "is_full_team rs c"
    by auto
  from t have lt: "length t = length grp"
    using in_set_product_lists_length by fastforce
  from full len lt have "length (foldl set_add [] t) = length [] + length t"
    by (simp add: is_full_team_def ct)
  from foldl_set_add_full [OF this] have eq: "c = t" by (simp add: ct)
  from t have "list_all2 (\<lambda>s ys. s \<in> set ys) t (map player_ships grp)"
    by (simp add: product_lists_set)
  then have choice: "list_all2 (\<lambda>s p. s \<in> set (player_ships p)) t grp"
    by (simp add: list_all2_map2)
  from owners_of_choice [OF choice] ok have "map ship_player t = map player_name grp"
    by (simp add: roster_ok_def)
  with ok have "distinct (map ship_player t)" by (simp add: roster_ok_def)
  with eq valid full choice show ?thesis by (simp add: is_full_team_def)
qed

text \<open>
  C2. On a roster whose entries have distinct names and own their ships, every composition
  that \<^verbatim>\<open>generate_comps\<close> (fleetcomp.py) yields has exactly \<open>size_limit\<close> members, owned by
  pairwise distinct players, and is accepted by \<^verbatim>\<open>is_valid\<close>.
\<close>

theorem generate_comps_exact:
  assumes "roster_ok (players team)"
    and "generate_comps team rs = Inr cs"
    and "c \<in> set cs"
  shows "int (length c) = size_limit rs \<and> distinct (map ship_player c) \<and> is_valid rs c"
proof -
  from assms(2) have nonneg: "0 \<le> size_limit rs"
    and cs: "cs = concat (map (\<lambda>grp. team_compositions rs [] grp)
                  (combinations (players team) (nat (size_limit rs))))"
    by (auto simp add: generate_comps_def split: if_splits)
  from assms(3) cs obtain grp where grp: "grp \<in> set (combinations (players team) (nat (size_limit rs)))"
    and c: "c \<in> set (team_compositions rs [] grp)"
    by auto
  from roster_ok_combination [OF assms(1) grp] nonneg
  have ok: "roster_ok grp" and len: "int (length grp) = size_limit rs"
    by simp_all
  from team_compositions_exact [OF ok len c] show ?thesis by simp
qed

lemma roster_is_ok: "roster_ok (players roster)"
  by (simp add: roster_ok_def roster_def Alpha_def Bravo_def Charlie_def Ship_init_def)

lemma generate_comps_roster:
  "generate_comps roster (rule_set 2) = Inr [[Alpha, Bravo], [Bravo, Charlie]]"
  by (simp add: generate_comps_def roster_def rule_set_def no_double_SS_def
      team_compositions.simps is_valid_def is_valid_run_def is_full_team_def set_add_def
      set_contains_def Ship_eq_def Alpha_def Bravo_def Charlie_def Ship_init_def is_banned_def
      rule_match_def numeral_2_eq_2)

theorem generate_comps_exact_witness:
  "roster_ok (players roster) \<and>
   generate_comps roster (rule_set 2) = Inr [[Alpha, Bravo], [Bravo, Charlie]] \<and>
   int (length [Bravo, Charlie]) = size_limit (rule_set 2) \<and>
   distinct (map ship_player [Bravo, Charlie]) \<and>
   is_valid (rule_set 2) [Bravo, Charlie]"
proof -
  have "[Bravo, Charlie] \<in> set [[Alpha, Bravo], [Bravo, Charlie]]" by simp
  from generate_comps_exact [OF roster_is_ok generate_comps_roster this]
    roster_is_ok generate_comps_roster
  show ?thesis by simp
qed

subsection \<open>Monotonicity in the ban lists\<close>

lemma count_all_more_bans:
  "more_bans rs rs' \<Longrightarrow> count_all rs' c rc = Some rc' \<Longrightarrow> count_all rs c rc = Some rc'"
proof (induction c arbitrary: rc)
  case Nil
  then show ?case by simp
next
  case (Cons ship c)
  from Cons.prems have nb: "\<not> is_banned rs' ship"
    and rest: "count_all rs' c (count_ship (restrictions rs') ship rc) = Some rc'"
    by (simp_all split: if_splits)
  from nb Cons.prems(1) have "\<not> is_banned rs ship"
    by (auto simp add: is_banned_def more_bans_def)
  moreover from Cons.prems(1) have "restrictions rs' = restrictions rs"
    by (simp add: more_bans_def)
  ultimately show ?case
    using Cons.IH [OF Cons.prems(1) rest] by simp
qed

lemma check_counts_same:
  "restrictions rs' = restrictions rs \<Longrightarrow> check_counts rs' rc = check_counts rs rc"
  by (induction rc) (auto split: option.splits)

lemma is_valid_more_bans:
  assumes "more_bans rs rs'" and "is_valid rs' c"
  shows "is_valid rs c"
proof -
  from assms(2) have len: "\<not> int (length c) > size_limit rs'"
    by (auto simp add: is_valid_def is_valid_run_def split: if_splits)
  with assms(2) obtain rc where rc: "count_all rs' c [] = Some rc"
    and chk: "check_counts rs' rc = Inr True"
    by (auto simp add: is_valid_def is_valid_run_def split: option.splits)
  from assms(1) have same: "restrictions rs' = restrictions rs" "size_limit rs' = size_limit rs"
    by (simp_all add: more_bans_def)
  from count_all_more_bans [OF assms(1) rc] chk len same show ?thesis
    by (simp add: is_valid_def is_valid_run_def check_counts_same [OF same(1)])
qed

lemma team_compositions_yield:
  "is_valid rs sel \<and> is_full_team rs sel \<Longrightarrow> team_compositions rs sel grp = [sel]"
  by (cases grp) (simp_all add: team_compositions.simps)

lemma team_compositions_step:
  "\<not> (is_valid rs sel \<and> is_full_team rs sel) \<Longrightarrow>
   team_compositions rs sel (p # rest) =
     concat (map (\<lambda>ship. team_compositions rs (set_add sel ship) rest) (player_ships p))"
  by (subst team_compositions.simps) (rule if_not_P)

lemma team_compositions_dead:
  "size_limit rs \<le> int (length sel) \<Longrightarrow> \<not> (is_valid rs sel \<and> is_full_team rs sel) \<Longrightarrow>
   team_compositions rs sel grp = []"
proof (induction grp arbitrary: sel)
  case Nil
  then show ?case by (simp add: team_compositions.simps)
next
  case (Cons p rest)
  have "team_compositions rs (set_add sel ship) rest = []" for ship
  proof (rule Cons.IH)
    from Cons.prems(1) length_set_add_ge [of sel ship]
    show "size_limit rs \<le> int (length (set_add sel ship))" by simp
    show "\<not> (is_valid rs (set_add sel ship) \<and> is_full_team rs (set_add sel ship))"
    proof (cases "set_contains sel ship")
      case True
      with Cons.prems(2) show ?thesis by (simp add: set_add_def)
    next
      case False
      with Cons.prems(1) show ?thesis by (simp add: set_add_def is_full_team_def)
    qed
  qed
  then show ?case
    by (simp add: team_compositions_step [OF Cons.prems(2)])
qed

lemma length_concat_mono:
  "(\<And>x. x \<in> set xs \<Longrightarrow> length (f x) \<le> length (g x)) \<Longrightarrow>
   length (concat (map f xs)) \<le> length (concat (map g xs))"
  by (induction xs) (auto simp add: add_mono)

lemma team_compositions_more_bans:
  assumes mb: "more_bans rs rs'"
  shows "length (team_compositions rs' sel grp) \<le> length (team_compositions rs sel grp)"
proof (induction grp arbitrary: sel)
  case Nil
  from mb have "is_full_team rs' sel = is_full_team rs sel"
    by (simp add: is_full_team_def more_bans_def)
  with is_valid_more_bans [OF mb, of sel] show ?case
    by (auto simp add: team_compositions.simps)
next
  case (Cons p rest)
  from mb have full: "is_full_team rs' sel = is_full_team rs sel"
    by (simp add: is_full_team_def more_bans_def)
  show ?case
  proof (cases "is_valid rs' sel \<and> is_full_team rs' sel")
    case True
    with is_valid_more_bans [OF mb, of sel] full
    have "is_valid rs sel \<and> is_full_team rs sel" by simp
    from team_compositions_yield [OF this] team_compositions_yield [OF True]
    show ?thesis by simp
  next
    case False
    show ?thesis
    proof (cases "is_valid rs sel \<and> is_full_team rs sel")
      case True
      with full have "size_limit rs' \<le> int (length sel)"
        using mb by (simp add: is_full_team_def more_bans_def)
      from team_compositions_dead [OF this False] show ?thesis by simp
    next
      case unfull: False
      show ?thesis
        unfolding team_compositions_step [OF False] team_compositions_step [OF unfull]
        by (rule length_concat_mono) (rule Cons.IH)
    qed
  qed
qed

text \<open>
  C7. Adding one name to \<open>banned_ships\<close>, or one category to \<open>banned_types\<close>, with every
  other field kept: a composition valid under the larger ban list is valid under the
  smaller, and the enumeration under the larger yields no more compositions than under
  the smaller (in both files; a negative \<open>size_limit\<close> raises ValueError under both).
\<close>

theorem ban_monotonicity:
  assumes "rs' = rs\<lparr>banned_ships := insert nm (banned_ships rs)\<rparr> \<or>
           rs' = rs\<lparr>banned_types := insert ty (banned_types rs)\<rparr>"
  shows "(is_valid rs' c \<longrightarrow> is_valid rs c) \<and>
         length (team_compositions rs' sel grp) \<le> length (team_compositions rs sel grp) \<and>
         (generate_comps team rs' = Inl ValueError \<and> generate_comps team rs = Inl ValueError \<or>
          (\<exists>cs' cs. generate_comps team rs' = Inr cs' \<and> generate_comps team rs = Inr cs \<and>
                     length cs' \<le> length cs)) \<and>
         length (tc_generate_comps team rs') \<le> length (tc_generate_comps team rs)"
proof -
  from assms have mb: "more_bans rs rs'"
    by (auto simp add: more_bans_def)
  then have size: "size_limit rs' = size_limit rs"
    by (simp add: more_bans_def)
  have gen: "length (concat (map (team_compositions rs' []) gs))
        \<le> length (concat (map (team_compositions rs []) gs))" for gs
    by (rule length_concat_mono) (rule team_compositions_more_bans [OF mb])
  show ?thesis
    using is_valid_more_bans [OF mb, of c] team_compositions_more_bans [OF mb, of sel grp]
      gen [of "combinations (players team) (nat (size_limit rs))"]
      gen [of "combinations (players team) 7"]
    by (simp add: generate_comps_def tc_generate_comps_def size
        tc_team_compositions_eq [abs_def])
qed

theorem ban_monotonicity_witness:
  "generate_comps roster ((rule_set 2)\<lparr>banned_ships := {''Alpha''}\<rparr>) = Inr [[Bravo, Charlie]] \<and>
   generate_comps roster (rule_set 2) = Inr [[Alpha, Bravo], [Bravo, Charlie]] \<and>
   is_valid (rule_set 2) [Alpha, Bravo] \<and>
   \<not> is_valid ((rule_set 2)\<lparr>banned_ships := {''Alpha''}\<rparr>) [Alpha, Bravo]"
proof -
  have step: "(rule_set 2)\<lparr>banned_ships := {''Alpha''}\<rparr> =
      (rule_set 2)\<lparr>banned_ships := insert ''Alpha'' (banned_ships (rule_set 2))\<rparr> \<or>
      (rule_set 2)\<lparr>banned_ships := {''Alpha''}\<rparr> =
      (rule_set 2)\<lparr>banned_types := insert ''SS'' (banned_types (rule_set 2))\<rparr>"
    by (simp add: rule_set_def)
  have banned: "generate_comps roster ((rule_set 2)\<lparr>banned_ships := {''Alpha''}\<rparr>)
      = Inr [[Bravo, Charlie]]"
    by (simp add: generate_comps_def roster_def rule_set_def no_double_SS_def
      team_compositions.simps is_valid_def is_valid_run_def is_full_team_def set_add_def
      set_contains_def Ship_eq_def Alpha_def Bravo_def Charlie_def Ship_init_def is_banned_def
      rule_match_def numeral_2_eq_2)
  have v: "is_valid (rule_set 2) [Alpha, Bravo]"
    by (simp add: is_valid_def is_valid_run_def rule_set_def no_double_SS_def Alpha_def
        Bravo_def Ship_init_def is_banned_def rule_match_def)
  have nv: "\<not> is_valid ((rule_set 2)\<lparr>banned_ships := {''Alpha''}\<rparr>) [Alpha, Bravo]"
    by (simp add: is_valid_def is_valid_run_def rule_set_def no_double_SS_def Alpha_def
        Bravo_def Ship_init_def is_banned_def rule_match_def)
  from ban_monotonicity [OF step, of "[Alpha, Bravo]" "[]" "[]" roster] banned
    generate_comps_roster v nv
  show ?thesis by simp
qed

subsection \<open>A team size beyond the participating players\<close>

lemma combinations_filter_length:
  "grp \<in> set (combinations xs r) \<Longrightarrow> length (filter P grp) \<le> length (filter P xs)"
proof (induction xs r arbitrary: grp rule: combinations.induct)
  case (1 xs)
  then show ?case by simp
next
  case (2 r)
  then show ?case by simp
next
  case (3 x xs r)
  from "3.prems" consider
      (take) g where "grp = x # g" "g \<in> set (combinations xs r)"
    | (skip) "grp \<in> set (combinations xs (Suc r))"
    by auto
  then show ?case
  proof cases
    case take
    from "3.IH"(1) [OF take(2)] show ?thesis
      by (simp add: take(1))
  next
    case skip
    from "3.IH"(2) [OF skip] show ?thesis
      by (simp add: le_SucI)
  qed
qed

lemma product_lists_empty: "[] \<in> set xss \<Longrightarrow> product_lists xss = []"
  by (induction xss) auto

lemma team_compositions_absent:
  assumes len: "int (length grp) = size_limit rs"
    and few: "length (filter Player_bool grp) < length grp"
  shows "team_compositions rs [] grp = []"
proof -
  from few have "\<exists>p \<in> set grp. \<not> Player_bool p"
    by (metis filter_True less_irrefl)
  then have "[] \<in> set (map player_ships grp)"
    by (force simp add: Player_bool_def)
  from product_lists_empty [OF this] team_compositions_product [of "[]" grp rs] len
  show ?thesis by simp
qed

lemma generate_comps_few:
  assumes "int (length (filter Player_bool (players team))) < size_limit rs"
  shows "generate_comps team rs = Inr []"
proof -
  from assms have nonneg: "0 \<le> size_limit rs" by simp
  have "team_compositions rs [] grp = []"
    if grp: "grp \<in> set (combinations (players team) (nat (size_limit rs)))" for grp
  proof (rule team_compositions_absent)
    from combinations_props [OF grp, of id] nonneg
    show len: "int (length grp) = size_limit rs" by simp
    from combinations_filter_length [OF grp, of Player_bool] assms len
    show "length (filter Player_bool grp) < length grp" by simp
  qed
  with nonneg show ?thesis
    by (simp add: generate_comps_def)
qed

text \<open>
  C3, as amended. In fleetcomp.py the check is made by \<^verbatim>\<open>count\<close>, not by the enumeration:
  when the team size (set in the rules or by the override) exceeds the number of players
  with a non-empty ship set, \<^verbatim>\<open>count\<close> raises ConfigurationError before it creates the
  generator, while \<^verbatim>\<open>generate_comps\<close> itself raises nothing and yields the empty sequence.
\<close>

theorem count_reports_configuration_error:
  assumes "x = int (length (filter Player_bool (players team)))"
    and "x < size_limit rs"
  shows "count team rs None = Inl (ConfigurationError (size_limit rs) x) \<and>
         count team loaded (Some (size_limit rs)) = Inl (ConfigurationError (size_limit rs) x) \<and>
         generate_comps team rs = Inr []"
  using assms generate_comps_few [of team rs]
  by (simp add: count_def with_team_size_def Let_def)

theorem count_reports_configuration_error_witness:
  "(3::int) = int (length (filter Player_bool (players roster))) \<and>
   3 < size_limit (rule_set 4) \<and>
   count roster (rule_set 4) None = Inl (ConfigurationError 4 3) \<and>
   count roster (rule_set 2) (Some 4) = Inl (ConfigurationError 4 3) \<and>
   count roster (rule_set 2) None = Inr 2"
proof -
  have x: "(3::int) = int (length (filter Player_bool (players roster)))"
    by (simp add: roster_def Player_bool_def)
  have lt: "3 < size_limit (rule_set 4)"
    by (simp add: rule_set_def)
  have "size_limit (rule_set 2) = 2"
    by (simp add: rule_set_def)
  with x [symmetric] have two: "count roster (rule_set 2) None = Inr 2"
    by (simp add: count_def generate_comps_roster Let_def)
  from count_reports_configuration_error [OF x lt, of "rule_set 2"] x lt two show ?thesis
    by (simp add: rule_set_def)
qed

text \<open>
  C3 as stated fails: with three participating players and a team size of 4 the
  enumeration reports no error and yields nothing.
\<close>

theorem generate_comps_silent_counterexample:
  "int (length (filter Player_bool (players roster))) < size_limit (rule_set 4) \<and>
   generate_comps roster (rule_set 4) = Inr [] \<and>
   tc_generate_comps roster (rule_set 4) = [] \<and> tc_count roster (rule_set 4) = 0"
  by (simp add: generate_comps_def tc_generate_comps_def tc_count_def roster_def rule_set_def
      Player_bool_def combinations_short)

subsection \<open>The width of the combinations\<close>

lemma generate_comps_modes:
  "0 \<le> size_limit rs \<Longrightarrow>
   generate_comps team rs =
     Inr (concat (map (team_compositions rs [])
            (combinations (players team) (nat (size_limit rs))))) \<and>
   (int (length (players team)) = size_limit rs \<longrightarrow>
      generate_comps team rs = Inr (team_compositions rs [] (players team)))"
proof -
  assume nonneg: "0 \<le> size_limit rs"
  have "combinations (players team) (nat (size_limit rs)) = [players team]"
    if "int (length (players team)) = size_limit rs"
    using combinations_all [of "players team"] that [symmetric] by simp
  with nonneg show ?thesis
    by (auto simp add: generate_comps_def)
qed

text \<open>
  C4. fleetcomp.py's \<^verbatim>\<open>generate_comps\<close> runs the search over every combination of
  \<open>size_limit\<close> players, which is the single pass over the whole group when the group has
  exactly \<open>size_limit\<close> players (\<open>generate_comps_modes\<close>). teamcomp.py's takes combinations of
  the literal 7 instead: on the scenario's three players with a team size of 2 it yields
  nothing, where fleetcomp.py's yields the two compositions.
\<close>

theorem tc_generate_comps_width:
  "size_limit (rule_set 2) = 2 \<and> length (players roster) = 3 \<and>
   tc_generate_comps roster (rule_set 2) = [] \<and> tc_count roster (rule_set 2) = 0 \<and>
   generate_comps roster (rule_set 2) = Inr [[Alpha, Bravo], [Bravo, Charlie]] \<and>
   count roster (rule_set 2) None = Inr 2"
proof -
  have size: "size_limit (rule_set 2) = 2"
    by (simp add: rule_set_def)
  have len: "length (players roster) = 3"
    by (simp add: roster_def)
  have part: "length (filter Player_bool (players roster)) = 3"
    by (simp add: roster_def Player_bool_def)
  have tc: "tc_generate_comps roster (rule_set 2) = []"
    by (simp add: tc_generate_comps_def combinations_short len)
  from size len part tc generate_comps_roster show ?thesis
    by (simp add: tc_count_def count_def Let_def)
qed

subsection \<open>The roster that the loader builds\<close>

text \<open>
  \<^verbatim>\<open>Player.__init__\<close> stamps every ship with the player's name, and \<^verbatim>\<open>Team.load\<close> makes one
  player per key of the team file: whenever it returns, the roster invariant holds.
\<close>

lemma set_add_owner:
  "list_all P sel \<Longrightarrow> P ship \<Longrightarrow> list_all P (set_add sel ship)"
  by (simp add: set_add_def)

lemma Player_ships_loop_owner:
  "Player_ships_loop fresh nm ships shipset = Inr (result, fresh') \<Longrightarrow>
   list_all (\<lambda>s. ship_player s = nm) shipset \<Longrightarrow>
   list_all (\<lambda>s. ship_player s = nm) result"
proof (induction fresh nm ships shipset rule: Player_ships_loop.induct)
  case (1 fresh nm shipset)
  then show ?case by simp
next
  case (2 fresh nm ship_type_str rest shipset)
  then show ?case by simp
next
  case (3 fresh nm ship_type_str sn sns rest shipset)
  from "3.prems"(1) obtain ty where ty: "ShipType_of ship_type_str = Inr ty"
    by (auto split: sum.splits)
  with "3.prems"(1) have run: "Player_ships_loop (Suc fresh) nm ((ship_type_str, sns) # rest)
            (set_add shipset (Ship_init fresh sn ty nm)) = Inr (result, fresh')"
    by simp
  have "list_all (\<lambda>s. ship_player s = nm) (set_add shipset (Ship_init fresh sn ty nm))"
    using "3.prems"(2) by (simp add: set_add_owner Ship_init_def)
  from "3.IH" [OF ty run this] show ?case .
qed

lemma Player_init_owner:
  "Player_init fresh nm ships = Inr (p, fresh') \<Longrightarrow>
   player_name p = nm \<and> list_all (\<lambda>s. ship_player s = player_name p) (player_ships p)"
  using Player_ships_loop_owner [of fresh nm ships "[]"]
  by (auto simp add: Player_init_def split: sum.splits prod.splits)

lemma Team_load_loop_names:
  "Team_load_loop fresh team_info tier_key ps = Inr (result, fresh') \<Longrightarrow>
   map player_name result = map player_name ps @ map fst team_info \<and>
   (list_all (\<lambda>p. list_all (\<lambda>s. ship_player s = player_name p) (player_ships p)) ps \<longrightarrow>
    list_all (\<lambda>p. list_all (\<lambda>s. ship_player s = player_name p) (player_ships p)) result)"
proof (induction team_info arbitrary: fresh ps)
  case Nil
  then show ?case by simp
next
  case (Cons item rest)
  obtain nm player_info where item: "item = (nm, player_info)" by (cases item)
  from Cons.prems obtain ships where ships: "map_of player_info tier_key = Some ships"
    by (auto simp add: item split: option.splits)
  with Cons.prems obtain p f where p: "Player_init fresh nm ships = Inr (p, f)"
    and run: "Team_load_loop f rest tier_key (ps @ [p]) = Inr (result, fresh')"
    by (auto simp add: item split: sum.splits)
  from Player_init_owner [OF p] Cons.IH [OF run] show ?case
    by (auto simp add: item)
qed

lemma Team_load_roster_ok:
  "Team_load fresh team_info tier_key = Inr (team, fresh') \<Longrightarrow> distinct (map fst team_info) \<Longrightarrow>
   roster_ok (players team) \<and> map player_name (players team) = map fst team_info"
  using Team_load_loop_names [of fresh team_info tier_key "[]"]
  by (auto simp add: Team_load_def roster_ok_def split: sum.splits)

lemma Team_load_roster:
  "Team_load 0 [(''A'', [(''10'', [(''SS'', [''Alpha''])])]),
                (''B'', [(''10'', [(''DD'', [''Bravo''])])]),
                (''C'', [(''10'', [(''SS'', [''Charlie''])])])] ''10'' = Inr (roster, 3)"
  by (simp add: Team_load_def Player_init_def ShipType_of_def set_add_def set_contains_def
      roster_def Alpha_def Bravo_def Charlie_def numeral_3_eq_3 numeral_2_eq_2)

end
